theory Spec2Isabelle
  imports Main
begin

section \<open>The PlayUnreal client (python/playunreal/client.py)\<close>

subsection \<open>Values, errors and the transport\<close>

text \<open>
  The client exchanges JSON with the Remote Control API and passes the decoded values
  around as untyped Python objects. \<open>JNull\<close> is Python's \<open>None\<close>; an object is an
  association list with distinct keys. The numbers on the modelled paths (the direction
  vectors \<open>0.0\<close>, \<open>1.0\<close>, \<open>-1.0\<close>) are integral.
\<close>

datatype json =
    JNull
  | JBool bool
  | JNum int
  | JStr string
  | JArr "json list"
  | JObj "(string \<times> json) list"

text \<open>
  The exceptions that occur on the modelled paths. \<open>RCConnectionError\<close> and
  \<open>CallError\<close> are the two subclasses of \<open>PlayUnrealError\<close>; their message
  text (URL, status code) is not modelled. \<open>AttributeError\<close> and \<open>TypeError\<close> are
  what Python raises for \<open>.get\<close> on a value that is no dict and for
  \<open>json.loads\<close> on a value that is no string.
\<close>

datatype error =
    ValueError string
  | PlayUnrealError string
  | RCConnectionError
  | CallError
  | JSONDecodeError
  | AttributeError
  | TypeError

text \<open>Python truthiness (\<open>if ret_val:\<close>, \<open>if result:\<close>, \<open>if parameters:\<close>).\<close>

fun py_truthy :: "json \<Rightarrow> bool" where
  "py_truthy JNull = False"
| "py_truthy (JBool b) = b"
| "py_truthy (JNum n) = (n \<noteq> 0)"
| "py_truthy (JStr s) = (s \<noteq> [])"
| "py_truthy (JArr xs) = (xs \<noteq> [])"
| "py_truthy (JObj kvs) = (kvs \<noteq> [])"

text \<open>\<open>obj.get(key, default)\<close>: only a dict has the method.\<close>

fun py_get :: "json \<Rightarrow> string \<Rightarrow> json \<Rightarrow> error + json" where
  "py_get (JObj kvs) key dflt = Inr (case map_of kvs key of Some v \<Rightarrow> v | None \<Rightarrow> dflt)"
| "py_get _ key dflt = Inl AttributeError"

text \<open>
  One HTTP request of \<open>_put\<close> (every request on the modelled paths is a PUT), and what
  \<open>urlopen\<close> does with it: a response body, an \<open>HTTPError\<close> or a \<open>URLError\<close>.
\<close>

record request =
  endpoint :: string
  body :: json

datatype http_response = HttpOk string | HttpError | UrlError

text \<open>
  The world outside the client: the server's answer to a request, which may depend on
  every request issued before it, and \<open>json.loads\<close> on a string (\<open>None\<close> when
  the text is not JSON).
\<close>

record remote =
  respond :: "request list \<Rightarrow> request \<Rightarrow> http_response"
  loads :: "string \<Rightarrow> json option"

text \<open>
  The client object together with the class attribute \<open>PlayUnreal._cached_config\<close>
  and the log of the requests issued so far (oldest first).
\<close>

record client =
  requests :: "request list"
  gm_path :: "string option"
  frog_path :: "string option"
  gm_class :: string
  frog_class :: string
  ue_module_name :: string
  map_name :: string
  cached_config :: json

text \<open>\<open>json.loads(v)\<close> on a Python value.\<close>

fun py_json_loads :: "remote \<Rightarrow> json \<Rightarrow> error + json" where
  "py_json_loads R (JStr s) = (case loads R s of Some v \<Rightarrow> Inr v | None \<Rightarrow> Inl JSONDecodeError)"
| "py_json_loads R _ = Inl TypeError"

subsection \<open>Low-level calls\<close>

definition put :: "remote \<Rightarrow> string \<Rightarrow> json \<Rightarrow> client \<Rightarrow> (error + json) \<times> client" where
  "put R ep b c =
     (let req = \<lparr>endpoint = ep, body = b\<rparr>;
          c' = c\<lparr>requests := requests c @ [req]\<rparr>
      in case respond R (requests c) req of
           HttpOk resp_body \<Rightarrow>
             (if resp_body \<noteq> []
              then (case loads R resp_body of
                      Some v \<Rightarrow> (Inr v, c')
                    | None \<Rightarrow> (Inr (JObj []), c'))
              else (Inr (JObj []), c'))
         | HttpError \<Rightarrow> (Inl CallError, c')
         | UrlError \<Rightarrow> (Inl RCConnectionError, c'))"

definition call_body :: "string \<Rightarrow> string \<Rightarrow> json \<Rightarrow> json" where
  "call_body object_path function_name parameters =
     JObj ([(''ObjectPath'', JStr object_path), (''FunctionName'', JStr function_name)]
           @ (if py_truthy parameters then [(''Parameters'', parameters)] else []))"

definition call_function ::
  "remote \<Rightarrow> string \<Rightarrow> string \<Rightarrow> json \<Rightarrow> client \<Rightarrow> (error + json) \<times> client" where
  "call_function R object_path function_name parameters c =
     put R ''/remote/object/call'' (call_body object_path function_name parameters) c"

definition describe_object :: "remote \<Rightarrow> string \<Rightarrow> client \<Rightarrow> (error + json) \<times> client" where
  "describe_object R object_path c =
     (case put R ''/remote/object/describe'' (JObj [(''ObjectPath'', JStr object_path)]) c of
        (Inl e, c') \<Rightarrow> (if e = CallError then (Inr JNull, c') else (Inl e, c'))
      | (Inr v, c') \<Rightarrow> (Inr v, c'))"

subsection \<open>Object path discovery\<close>

definition default_path :: "client \<Rightarrow> string \<Rightarrow> string" where
  "default_path c class_name = ''/Script/'' @ ue_module_name c @ ''.Default__'' @ class_name"

definition build_candidates :: "client \<Rightarrow> string \<Rightarrow> string list" where
  "build_candidates c class_name =
     concat (map (\<lambda>m.
        (let prefix = ''/Game/Maps/'' @ m @ ''.'' @ m @ '':PersistentLevel''
         in [prefix @ ''.'' @ class_name @ ''_0'',
             prefix @ ''.'' @ class_name @ ''_C_0'',
             prefix @ ''.'' @ class_name @ ''_1'']))
        [map_name c, ''FroggerMap'', ''TestMap'', ''DefaultMap''])
     @ [default_path c class_name]"

text \<open>
  The loop of \<open>_discover_path\<close>: the first candidate whose description is truthy;
  a \<open>CallError\<close> or \<open>RCConnectionError\<close> skips the candidate.
\<close>

fun probe :: "remote \<Rightarrow> string list \<Rightarrow> string \<Rightarrow> client \<Rightarrow> (error + string) \<times> client" where
  "probe R [] fallback c = (Inr fallback, c)"
| "probe R (p # ps) fallback c =
     (case describe_object R p c of
        (Inr result, c') \<Rightarrow> (if py_truthy result then (Inr p, c') else probe R ps fallback c')
      | (Inl e, c') \<Rightarrow>
          (if e = CallError \<or> e = RCConnectionError then probe R ps fallback c'
           else (Inl e, c')))"

definition discover_path :: "remote \<Rightarrow> string \<Rightarrow> client \<Rightarrow> (error + string) \<times> client" where
  "discover_path R class_name c =
     probe R (build_candidates c class_name) (default_path c class_name) c"

definition discover_gm_path :: "remote \<Rightarrow> client \<Rightarrow> (error + string) \<times> client" where
  "discover_gm_path R c =
     (case discover_path R (gm_class c) c of
        (Inr p, c') \<Rightarrow> (Inr p, c'\<lparr>gm_path := Some p\<rparr>)
      | (Inl e, c') \<Rightarrow> (Inl e, c'))"

text \<open>\<open>if self._gm_path: return self._gm_path\<close>: a cached path is a non-empty string.\<close>

definition get_gm_path :: "remote \<Rightarrow> client \<Rightarrow> (error + string) \<times> client" where
  "get_gm_path R c =
     (case gm_path c of
        Some s \<Rightarrow> (if s \<noteq> [] then (Inr s, c) else discover_gm_path R c)
      | None \<Rightarrow> discover_gm_path R c)"



subsection \<open>hop\<close>







text \<open>The requests of a log that only describe objects.\<close>

definition describes :: "request list \<Rightarrow> bool" where
  "describes qs = list_all (\<lambda>q. endpoint q = ''/remote/object/describe'') qs"

text \<open>A call without parameters, as \<open>_call_function\<close> sends it, and the client after
  one more request.\<close>

definition call_request :: "string \<Rightarrow> string \<Rightarrow> request" where
  "call_request object_path function_name =
     \<lparr>endpoint = ''/remote/object/call'', body = call_body object_path function_name JNull\<rparr>"

definition sent :: "request \<Rightarrow> client \<Rightarrow> client" where
  "sent q c = c\<lparr>requests := requests c @ [q]\<rparr>"

subsection \<open>get_hazards\<close>

text \<open>
  The body of the \<open>try\<close> block after the call returned: read \<open>ReturnValue\<close>,
  decode it when it is truthy and take the \<open>hazards\<close> entry; a falsy
  \<open>ReturnValue\<close> falls through to \<open>return []\<close>.
\<close>

definition hazards_payload :: "remote \<Rightarrow> json \<Rightarrow> error + json" where
  "hazards_payload R result =
     (case py_get result ''ReturnValue'' (JStr []) of
        Inl e \<Rightarrow> Inl e
      | Inr ret_val \<Rightarrow>
          (if py_truthy ret_val
           then (case py_json_loads R ret_val of
                   Inl e \<Rightarrow> Inl e
                 | Inr parsed \<Rightarrow> py_get parsed ''hazards'' (JArr []))
           else Inr (JArr [])))"

text \<open>
  \<open>gm_path\<close> is looked up before the \<open>try\<close>; the handler is
  \<open>except (CallError, json.JSONDecodeError): pass\<close>, followed by \<open>return []\<close>.
\<close>

definition get_hazards :: "remote \<Rightarrow> client \<Rightarrow> (error + json) \<times> client" where
  "get_hazards R c =
     (case get_gm_path R c of
        (Inl e, c1) \<Rightarrow> (Inl e, c1)
      | (Inr gm, c1) \<Rightarrow>
          (case call_function R gm ''GetLaneHazardsJSON'' JNull c1 of
             (r, c2) \<Rightarrow>
               (case (case r of Inl e \<Rightarrow> Inl e | Inr result \<Rightarrow> hazards_payload R result) of
                  Inl e \<Rightarrow>
                    (if e = CallError \<or> e = JSONDecodeError then (Inr (JArr []), c2)
                     else (Inl e, c2))
                | Inr v \<Rightarrow> (Inr v, c2))))"

subsection \<open>get_config\<close>

text \<open>The assignment \<open>PlayUnreal._cached_config = config\<close>.\<close>

definition store_config :: "json \<Rightarrow> client \<Rightarrow> client" where
  "store_config config c = c\<lparr>cached_config := config\<rparr>"

text \<open>\<open>except (CallError, RCConnectionError, json.JSONDecodeError): pass\<close>, then \<open>return {}\<close>.\<close>

definition config_handler :: "error \<Rightarrow> client \<Rightarrow> (error + json) \<times> client" where
  "config_handler e c =
     (if e = CallError \<or> e = RCConnectionError \<or> e = JSONDecodeError then (Inr (JObj []), c)
      else (Inl e, c))"

definition get_config :: "remote \<Rightarrow> client \<Rightarrow> (error + json) \<times> client" where
  "get_config R c =
     (if cached_config c \<noteq> JNull then (Inr (cached_config c), c)
      else
        (case get_gm_path R c of
           (Inl e, c1) \<Rightarrow> config_handler e c1
         | (Inr gm, c1) \<Rightarrow>
             (case call_function R gm ''GetGameConfigJSON'' JNull c1 of
                (Inl e, c2) \<Rightarrow> config_handler e c2
              | (Inr result, c2) \<Rightarrow>
                  (case py_get result ''ReturnValue'' (JStr []) of
                     Inl e \<Rightarrow> config_handler e c2
                   | Inr ret_val \<Rightarrow>
                       (if py_truthy ret_val
                        then (case py_json_loads R ret_val of
                                Inl e \<Rightarrow> config_handler e c2
                              | Inr config \<Rightarrow> (Inr config, store_config config c2))
                        else (Inr (JObj []), c2))))))"

text \<open>A run of successive \<open>get_config\<close> calls: the values returned, and the final client.\<close>

fun get_config_calls :: "remote \<Rightarrow> nat \<Rightarrow> client \<Rightarrow> (error + json) list \<times> client" where
  "get_config_calls R 0 c = ([], c)"
| "get_config_calls R (Suc n) c =
     (case get_config R c of
        (r, c1) \<Rightarrow> (case get_config_calls R n c1 of (rs, c2) \<Rightarrow> (r # rs, c2)))"

subsection \<open>navigate\<close>

text \<open>
  What \<open>from path_planner import navigate_to_home_slot\<close> can do: bind the function,
  raise \<open>ModuleNotFoundError\<close> (the module is not on \<open>sys.path\<close>) or another
  \<open>ImportError\<close> (the module has no such name), or raise whatever the module's own
  top-level code raises. The planner is not part of the client; the function the import
  binds is a parameter.
\<close>

datatype 'f import_result =
    Imported 'f
  | ModuleNotFoundError
  | ImportError
  | ImportRaised error

definition planner_missing :: string where
  "planner_missing =
     ''path_planner module not found. Navigation requires ''
       @ ''Tools/PlayUnreal/path_planner.py on sys.path.''"

text \<open>\<open>navigate(self, target_col=6, max_deaths=8)\<close>: an omitted argument is \<open>None\<close>.\<close>

definition navigate ::
  "(client \<Rightarrow> int \<Rightarrow> int \<Rightarrow> (error + 'r) \<times> client) import_result
     \<Rightarrow> int option \<Rightarrow> int option \<Rightarrow> client \<Rightarrow> (error + 'r) \<times> client" where
  "navigate path_planner target_col max_deaths c =
     (case path_planner of
        Imported navigate_to_home_slot \<Rightarrow>
          navigate_to_home_slot c
            (case target_col of Some t \<Rightarrow> t | None \<Rightarrow> 6)
            (case max_deaths of Some d \<Rightarrow> d | None \<Rightarrow> 8)
      | ModuleNotFoundError \<Rightarrow> (Inl (PlayUnrealError planner_missing), c)
      | ImportError \<Rightarrow> (Inl (PlayUnrealError planner_missing), c)
      | ImportRaised e \<Rightarrow> (Inl e, c))"

section \<open>The planner's configuration step (ci/ci_demo_all_features.py)\<close>





text \<open>
  The ways a configuration fetch fails, read off the server's answer to the
  \<open>GetGameConfigJSON\<close> call: no connection, an HTTP error status, a body that is
  empty or not JSON, an object without \<open>ReturnValue\<close> or with an empty one, and a
  \<open>ReturnValue\<close> string that is not JSON.
\<close>

definition fetch_fails :: "remote \<Rightarrow> http_response \<Rightarrow> bool" where
  "fetch_fails R resp =
     (case resp of
        UrlError \<Rightarrow> True
      | HttpError \<Rightarrow> True
      | HttpOk b \<Rightarrow>
          (if b = [] then True
           else (case loads R b of
                   None \<Rightarrow> True
                 | Some (JObj kvs) \<Rightarrow>
                     (case map_of kvs ''ReturnValue'' of
                        None \<Rightarrow> True
                      | Some (JStr s) \<Rightarrow> s = [] \<or> loads R s = None
                      | Some _ \<Rightarrow> False)
                 | Some _ \<Rightarrow> False)))"

section \<open>The path planner\<close>

text \<open>
  \<open>path_planner.py\<close> is imported by the client and by the CI script but is not among
  the sources; the definitions of this section follow the design document. Positions are
  whole world units and time is counted in whole planning ticks.
\<close>

subsection \<open>Data model\<close>

text \<open>
  Modelled from the spec: the Hazard snapshot (section 3); the field \<open>x\<close> is written
  \<open>xpos\<close>, and the occupied span is \<open>[x, x + width)\<close>.
\<close>

record hazard =
  row :: int
  xpos :: int
  speed :: int
  movesRight :: bool
  width :: int
  rideable :: bool

text \<open>
  Modelled from the spec: GridConfig (section 3), with \<open>hopDuration\<close> in ticks.
\<close>

record grid_config =
  cellSize :: int
  gridCols :: nat
  hopDuration :: nat

subsection \<open>HazardModel\<close>

text \<open>
  Modelled from the spec: \<open>direction\<close> of section 4.1, \<open>+1\<close> if \<open>movesRight\<close>
  else \<open>-1\<close>.
\<close>

definition hazard_direction :: "hazard \<Rightarrow> int" where
  "hazard_direction h = (if movesRight h then 1 else - 1)"

text \<open>
  Modelled from the spec: \<open>predict_position\<close> (section 4.1), the linear extrapolation
  \<open>x + direction * speed * dt\<close>.
\<close>

definition predict_position :: "hazard \<Rightarrow> nat \<Rightarrow> int" where
  "predict_position h dt = xpos h + hazard_direction h * speed h * int dt"

text \<open>
  Modelled from the spec: \<open>occupies\<close> (section 4.1): the column's cell span overlaps
  the hazard's predicted span.
\<close>

definition occupies :: "grid_config \<Rightarrow> hazard \<Rightarrow> nat \<Rightarrow> nat \<Rightarrow> bool" where
  "occupies cfg h column dt =
     (let cell_lo = int column * cellSize cfg;
          cell_hi = cell_lo + cellSize cfg;
          lo = predict_position h dt;
          hi = lo + width h
      in lo < cell_hi \<and> cell_lo < hi)"

text \<open>
  Modelled from the spec: the support test of section 4.2 for river rows: a rideable
  hazard's predicted span covers the whole cell of the column.
\<close>

definition covers :: "grid_config \<Rightarrow> hazard \<Rightarrow> nat \<Rightarrow> nat \<Rightarrow> bool" where
  "covers cfg h column dt =
     (let cell_lo = int column * cellSize cfg;
          cell_hi = cell_lo + cellSize cfg;
          lo = predict_position h dt;
          hi = lo + width h
      in rideable h \<and> lo \<le> cell_lo \<and> cell_hi \<le> hi)"

subsection \<open>LaneSafetyEvaluator\<close>

text \<open>
  Modelled from the spec: \<open>is_column_safe\<close> (section 4.2): no hazard of the set
  occupies the column at time \<open>dt\<close>.
\<close>

definition is_column_safe :: "grid_config \<Rightarrow> hazard list \<Rightarrow> nat \<Rightarrow> nat \<Rightarrow> bool" where
  "is_column_safe cfg hazards column dt = (\<forall>h \<in> set hazards. \<not> occupies cfg h column dt)"

text \<open>
  Modelled from the spec: a column is safe for a hop begun at \<open>dt\<close> when it is safe at
  the hop start and at the landing instant one hop duration later (section 4.2).
\<close>

definition is_column_safe_for_hop :: "grid_config \<Rightarrow> hazard list \<Rightarrow> nat \<Rightarrow> nat \<Rightarrow> bool" where
  "is_column_safe_for_hop cfg hazards column dt =
     (is_column_safe cfg hazards column dt
      \<and> is_column_safe cfg hazards column (dt + hopDuration cfg))"

text \<open>
  Modelled from the spec: the river predicate of section 4.2: some rideable hazard
  covers the column at \<open>dt\<close>.
\<close>

definition column_covered :: "grid_config \<Rightarrow> hazard list \<Rightarrow> nat \<Rightarrow> nat \<Rightarrow> bool" where
  "column_covered cfg hazards column dt = (\<exists>h \<in> set hazards. covers cfg h column dt)"

text \<open>
  Modelled from the spec: the river counterpart of the look-ahead (section 4.2): covered
  at the hop start and still covered one hop duration later.
\<close>

definition platform_ready :: "grid_config \<Rightarrow> hazard list \<Rightarrow> nat \<Rightarrow> nat \<Rightarrow> bool" where
  "platform_ready cfg hazards column dt =
     (column_covered cfg hazards column dt
      \<and> column_covered cfg hazards column (dt + hopDuration cfg))"

text \<open>
  Modelled from the spec: the minimal \<open>dt\<close> in \<open>[0, max_wait]\<close> at which a
  candidate is acceptable (section 4.2), by scanning the ticks in order.
\<close>

definition earliest :: "(nat \<Rightarrow> bool) \<Rightarrow> nat \<Rightarrow> nat option" where
  "earliest ok max_wait = find ok [0..<Suc max_wait]"

text \<open>
  Modelled from the spec: "returns the candidate with smallest wait time" (section 4.2):
  one pass over the candidates in search order that keeps the best so far and replaces
  it only by a strictly smaller wait, so that the earlier candidate wins a tie.
\<close>

fun select_best :: "(nat \<Rightarrow> nat option) \<Rightarrow> nat list \<Rightarrow> (nat \<times> nat) option \<Rightarrow> (nat \<times> nat) option" where
  "select_best wait_of [] best = best"
| "select_best wait_of (c # cs) best =
     select_best wait_of cs
       (case wait_of c of
          None \<Rightarrow> best
        | Some w \<Rightarrow>
            (case best of
               None \<Rightarrow> Some (c, w)
             | Some (bc, bw) \<Rightarrow> (if w < bw then Some (c, w) else best)))"

text \<open>Modelled from the spec: the distance between two columns.\<close>

definition col_dist :: "nat \<Rightarrow> nat \<Rightarrow> nat" where
  "col_dist a b = (if a \<le> b then b - a else a - b)"

text \<open>
  Modelled from the spec: the search order of \<open>find_safe_column\<close> (section 4.2): the
  columns of the grid by proximity to \<open>target_col\<close>; of two columns at the same
  distance the one on the side of \<open>current_col\<close> where the target lies comes first,
  and the one nearer to \<open>current_col\<close> when both lie there (the sort is stable).
\<close>

definition road_candidates :: "grid_config \<Rightarrow> nat \<Rightarrow> nat \<Rightarrow> nat list" where
  "road_candidates cfg current_col target_col =
     sort_key (\<lambda>c. 2 * col_dist c target_col
                  + (if (if current_col \<le> target_col then current_col \<le> c else c \<le> current_col)
                     then 0 else 1))
       (sort_key (\<lambda>c. col_dist c current_col) [0..<gridCols cfg])"

text \<open>
  Modelled from the spec: the search order of \<open>find_platform_column\<close> (section 4.2):
  the columns of the grid by proximity to \<open>current_col\<close>.
\<close>

definition river_candidates :: "grid_config \<Rightarrow> nat \<Rightarrow> nat list" where
  "river_candidates cfg current_col = sort_key (\<lambda>c. col_dist c current_col) [0..<gridCols cfg]"

text \<open>
  Modelled from the spec: the result pair \<open>(column | none, wait_time)\<close>; without a
  column the wait reported is the exhausted budget.
\<close>

definition search_result :: "nat \<Rightarrow> (nat \<times> nat) option \<Rightarrow> nat option \<times> nat" where
  "search_result max_wait best =
     (case best of None \<Rightarrow> (None, max_wait) | Some (c, w) \<Rightarrow> (Some c, w))"

text \<open>
  Modelled from the spec: \<open>find_safe_column\<close> (section 4.2; \<open>find_safe_road_column\<close>
  in the CI script).
\<close>

definition find_safe_column ::
  "grid_config \<Rightarrow> hazard list \<Rightarrow> nat \<Rightarrow> nat \<Rightarrow> nat \<Rightarrow> nat option \<times> nat" where
  "find_safe_column cfg hazards current_col target_col max_wait =
     search_result max_wait
       (select_best (\<lambda>c. earliest (is_column_safe_for_hop cfg hazards c) max_wait)
          (road_candidates cfg current_col target_col) None)"

text \<open>
  Modelled from the spec: \<open>find_platform_column\<close> (section 4.2): the same search with
  the river predicate.
\<close>

definition find_platform_column ::
  "grid_config \<Rightarrow> hazard list \<Rightarrow> nat \<Rightarrow> nat \<Rightarrow> nat option \<times> nat" where
  "find_platform_column cfg hazards current_col max_wait =
     search_result max_wait
       (select_best (\<lambda>c. earliest (platform_ready cfg hazards c) max_wait)
          (river_candidates cfg current_col) None)"

section \<open>Sample inputs\<close>

text \<open>A server that answers every request with an empty body, and a client whose object
  paths are already known.\<close>

definition silent_remote :: remote where
  "silent_remote = \<lparr>respond = (\<lambda>log q. HttpOk []), loads = (\<lambda>s. None)\<rparr>"

definition known_client :: client where
  "known_client =
     \<lparr>requests = [], gm_path = Some ''/Game/GM'', frog_path = Some ''/Game/Frog'',
      gm_class = ''UnrealFrogGameMode'', frog_class = ''FrogCharacter'',
      ue_module_name = ''UnrealFrog'', map_name = ''FroggerMain'', cached_config = JNull\<rparr>"

text \<open>A server that cannot be reached, one that answers every request with an HTTP error
  status, and one that reports a configuration.\<close>

definition unreachable_remote :: remote where
  "unreachable_remote = \<lparr>respond = (\<lambda>log q. UrlError), loads = (\<lambda>s. None)\<rparr>"

definition failing_remote :: remote where
  "failing_remote = \<lparr>respond = (\<lambda>log q. HttpError), loads = (\<lambda>s. None)\<rparr>"

definition sample_config :: json where
  "sample_config = JObj [(''cellSize'', JNum 100), (''gridCols'', JNum 13)]"

definition config_remote :: remote where
  "config_remote =
     \<lparr>respond = (\<lambda>log q. HttpOk ''R''),
      loads = (\<lambda>s. if s = ''R'' then Some (JObj [(''ReturnValue'', JStr ''C'')])
                     else if s = ''C'' then Some sample_config else None)\<rparr>"





text \<open>The scenarios of the design document: a grid of ten unit cells, a stationary road
  hazard of width 2 at the left edge, a hazard that blocks the whole row, and a platform of
  width 3 drifting right at speed 2.\<close>

definition unit_grid :: grid_config where
  "unit_grid = \<lparr>cellSize = 1, gridCols = 10, hopDuration = 1\<rparr>"

definition parked_car :: hazard where
  "parked_car = \<lparr>row = 1, xpos = 0, speed = 0, movesRight = True, width = 2, rideable = False\<rparr>"

definition road_block :: hazard where
  "road_block = \<lparr>row = 1, xpos = 0, speed = 0, movesRight = True, width = 10, rideable = False\<rparr>"

definition drifting_log :: hazard where
  "drifting_log = \<lparr>row = 7, xpos = 0, speed = 2, movesRight = True, width = 3, rideable = True\<rparr>"

section \<open>Properties\<close>

subsection \<open>Requests issued by path discovery\<close>

lemma put_requests:
  "put R ep b c = (r, c') \<Longrightarrow> c' = c\<lparr>requests := requests c @ [\<lparr>endpoint = ep, body = b\<rparr>]\<rparr>"
  by (auto simp: put_def Let_def split: http_response.splits option.splits if_splits)

lemma put_error:
  "put R ep b c = (Inl e, c') \<Longrightarrow> e = CallError \<or> e = RCConnectionError"
  by (auto simp: put_def Let_def split: http_response.splits option.splits if_splits)

lemma describe_object_requests:
  "describe_object R p c = (r, c') \<Longrightarrow>
     c' = c\<lparr>requests := requests c @ [\<lparr>endpoint = ''/remote/object/describe'', body = JObj [(''ObjectPath'', JStr p)]\<rparr>]\<rparr>"
  by (auto simp: describe_object_def split: prod.splits sum.splits if_splits dest: put_requests)

lemma describe_object_error:
  "describe_object R p c = (Inl e, c') \<Longrightarrow> e = RCConnectionError"
  by (auto simp: describe_object_def split: prod.splits sum.splits if_splits dest: put_error)

lemma probe_requests:
  "probe R ps fb c = (r, c') \<Longrightarrow>
     \<exists>pre p. r = Inr p \<and> describes pre \<and> c' = c\<lparr>requests := requests c @ pre\<rparr>"
proof (induction ps arbitrary: c)
  case Nil
  then show ?case by (auto simp: describes_def intro: exI[of _ "[]"])
next
  case (Cons p ps)
  obtain r1 c1 where d: "describe_object R p c = (r1, c1)" by (cases "describe_object R p c")
  from describe_object_requests[OF d]
  have c1: "c1 = c\<lparr>requests := requests c @ [\<lparr>endpoint = ''/remote/object/describe'', body = JObj [(''ObjectPath'', JStr p)]\<rparr>]\<rparr>" .
  show ?case
  proof (cases "probe R (p # ps) fb c = probe R ps fb c1")
    case True
    with Cons.prems have "probe R ps fb c1 = (r, c')" by simp
    from Cons.IH[OF this] obtain pre q where
      "r = Inr q" "describes pre" "c' = c1\<lparr>requests := requests c1 @ pre\<rparr>" by blast
    then show ?thesis using c1
      by (intro exI[of _ "\<lparr>endpoint = ''/remote/object/describe'', body = JObj [(''ObjectPath'', JStr p)]\<rparr> # pre"] exI[of _ q])
         (simp add: describes_def)
  next
    case False
    with Cons.prems d describe_object_error[of R p c _ c1] have "r = Inr p \<and> c' = c1"
      by (auto split: sum.splits if_splits)
    then show ?thesis using c1
      by (intro exI[of _ "[\<lparr>endpoint = ''/remote/object/describe'', body = JObj [(''ObjectPath'', JStr p)]\<rparr>]"] exI[of _ p])
         (simp add: describes_def)
  qed
qed






subsection \<open>hop\<close>



subsection \<open>get_hazards\<close>

lemma get_gm_path_effect:
  assumes "get_gm_path R c = (r, c1)"
  shows "\<exists>p pre. r = Inr p \<and> describes pre \<and> requests c1 = requests c @ pre
           \<and> cached_config c1 = cached_config c"
proof (cases "get_gm_path R c = discover_gm_path R c")
  case True
  obtain r0 c0 where p: "probe R (build_candidates c (gm_class c)) (default_path c (gm_class c)) c = (r0, c0)"
    by (cases "probe R (build_candidates c (gm_class c)) (default_path c (gm_class c)) c")
  from probe_requests[OF p] obtain pre q where
    "r0 = Inr q" "describes pre" "c0 = c\<lparr>requests := requests c @ pre\<rparr>" by blast
  with True assms p show ?thesis
    by (auto simp: discover_gm_path_def discover_path_def)
next
  case False
  with assms have "r = Inr (the (gm_path c)) \<and> c1 = c"
    by (auto simp: get_gm_path_def split: option.splits if_splits)
  then show ?thesis by (auto simp: describes_def intro: exI[of _ "[]"])
qed

lemma call_function_outcome:
  "call_function R p f JNull c =
     (case respond R (requests c) (call_request p f) of
        HttpOk b \<Rightarrow>
          (if b \<noteq> [] then (case loads R b of Some v \<Rightarrow> Inr v | None \<Rightarrow> Inr (JObj []))
           else Inr (JObj []))
      | HttpError \<Rightarrow> Inl CallError
      | UrlError \<Rightarrow> Inl RCConnectionError,
      sent (call_request p f) c)"
  by (simp add: call_function_def put_def call_request_def sent_def Let_def
           split: http_response.splits option.splits)

lemma get_hazards_unfold:
  assumes "get_gm_path R c = (Inr gm, c1)"
  shows "get_hazards R c =
     (case (case fst (call_function R gm ''GetLaneHazardsJSON'' JNull c1) of
              Inl e \<Rightarrow> Inl e | Inr result \<Rightarrow> hazards_payload R result) of
        Inl e \<Rightarrow> (if e = CallError \<or> e = JSONDecodeError then Inr (JArr []) else Inl e)
      | Inr v \<Rightarrow> Inr v,
      sent (call_request gm ''GetLaneHazardsJSON'') c1)"
  using assms
  by (simp add: get_hazards_def call_function_outcome split: prod.splits sum.splits)

text \<open>
  Claim C9, as amended. \<open>get_hazards\<close> returns the empty list when the call fails with
  an HTTP error status, when the response body is empty or not JSON, and when
  \<open>ReturnValue\<close> is missing, empty or not JSON; a caller cannot tell these from a
  snapshot without hazards. When the server cannot be reached, the
  \<open>RCConnectionError\<close> of the call is not caught and reaches the caller. When
  \<open>ReturnValue\<close> decodes to an object, its \<open>hazards\<close> entry is returned (the empty
  list when there is none).
\<close>

theorem get_hazards_outcomes:
  assumes "get_gm_path R c = (Inr gm, c1)"
    and "resp = respond R (requests c1) (call_request gm ''GetLaneHazardsJSON'')"
    and "c2 = sent (call_request gm ''GetLaneHazardsJSON'') c1"
  shows "(resp = UrlError \<longrightarrow> get_hazards R c = (Inl RCConnectionError, c2))
     \<and> (resp \<noteq> UrlError \<and> fetch_fails R resp \<longrightarrow> get_hazards R c = (Inr (JArr []), c2))
     \<and> (\<forall>b kvs s hs.
           resp = HttpOk b \<and> b \<noteq> [] \<and> loads R b = Some (JObj kvs)
           \<and> map_of kvs ''ReturnValue'' = Some (JStr s) \<and> s \<noteq> [] \<and> loads R s = Some (JObj hs)
           \<longrightarrow> get_hazards R c
                 = (Inr (case map_of hs ''hazards'' of Some v \<Rightarrow> v | None \<Rightarrow> JArr []), c2))"
proof (intro conjI impI allI)
  assume "resp = UrlError"
  with assms(2,3) show "get_hazards R c = (Inl RCConnectionError, c2)"
    by (simp add: get_hazards_unfold[OF assms(1)] call_function_outcome)
next
  assume "resp \<noteq> UrlError \<and> fetch_fails R resp"
  with assms(2,3) show "get_hazards R c = (Inr (JArr []), c2)"
    by (auto simp: get_hazards_unfold[OF assms(1)] call_function_outcome fetch_fails_def
          hazards_payload_def
          split: http_response.splits option.splits json.splits if_splits)
next
  fix b kvs s hs
  assume "resp = HttpOk b \<and> b \<noteq> [] \<and> loads R b = Some (JObj kvs)
           \<and> map_of kvs ''ReturnValue'' = Some (JStr s) \<and> s \<noteq> [] \<and> loads R s = Some (JObj hs)"
  with assms(2,3) show "get_hazards R c
                 = (Inr (case map_of hs ''hazards'' of Some v \<Rightarrow> v | None \<Rightarrow> JArr []), c2)"
    by (auto simp: get_hazards_unfold[OF assms(1)] call_function_outcome hazards_payload_def
          split: http_response.splits)
qed

theorem get_hazards_outcomes_witness:
  "get_hazards failing_remote known_client
     = (Inr (JArr []), sent (call_request ''/Game/GM'' ''GetLaneHazardsJSON'') known_client)
   \<and> get_hazards silent_remote known_client
     = (Inr (JArr []), sent (call_request ''/Game/GM'' ''GetLaneHazardsJSON'') known_client)"
proof -
  have gm: "\<And>R. get_gm_path R known_client = (Inr ''/Game/GM'', known_client)"
    by (simp add: get_gm_path_def known_client_def)
  from get_hazards_outcomes[OF gm refl refl, of failing_remote]
       get_hazards_outcomes[OF gm refl refl, of silent_remote]
  show ?thesis
    by (simp add: failing_remote_def silent_remote_def fetch_fails_def)
qed

text \<open>
  Claim C9 as stated fails: with the editor not running, \<open>get_hazards\<close> raises
  \<open>RCConnectionError\<close>.
\<close>

theorem get_hazards_raises:
  "get_hazards unreachable_remote known_client
     = (Inl RCConnectionError, sent (call_request ''/Game/GM'' ''GetLaneHazardsJSON'') known_client)"
  by (simp add: get_hazards_def get_gm_path_def known_client_def unreachable_remote_def
        call_function_outcome)

subsection \<open>get_config\<close>

lemma get_config_unfold:
  assumes "cached_config c = JNull" and "get_gm_path R c = (Inr gm, c1)"
  shows "get_config R c =
     (case call_function R gm ''GetGameConfigJSON'' JNull c1 of
        (Inl e, c2) \<Rightarrow> config_handler e c2
      | (Inr result, c2) \<Rightarrow>
          (case py_get result ''ReturnValue'' (JStr []) of
             Inl e \<Rightarrow> config_handler e c2
           | Inr ret_val \<Rightarrow>
               (if py_truthy ret_val
                then (case py_json_loads R ret_val of
                        Inl e \<Rightarrow> config_handler e c2
                      | Inr config \<Rightarrow> (Inr config, store_config config c2))
                else (Inr (JObj []), c2))))"
  using assms by (simp add: get_config_def)

lemma get_config_failure:
  assumes "cached_config c = JNull" and "get_gm_path R c = (Inr gm, c1)"
    and "fetch_fails R (respond R (requests c1) (call_request gm ''GetGameConfigJSON''))"
  shows "get_config R c = (Inr (JObj []), sent (call_request gm ''GetGameConfigJSON'') c1)"
  using assms(3)
  by (auto simp: get_config_unfold[OF assms(1,2)] call_function_outcome fetch_fails_def
        config_handler_def
        split: http_response.splits option.splits json.splits if_splits)


lemma probe_gm_path:
  "probe R ps fb c = (r, c') \<Longrightarrow> gm_path c' = gm_path c"
  by (drule probe_requests) auto








lemma get_config_cached:
  "cached_config c \<noteq> JNull \<Longrightarrow> get_config R c = (Inr (cached_config c), c)"
  by (simp add: get_config_def)

lemma get_config_calls_cached:
  "cached_config c \<noteq> JNull \<Longrightarrow>
     get_config_calls R n c = (replicate n (Inr (cached_config c)), c)"
  by (induction n) (simp_all add: get_config_cached)

lemma config_handler_cache:
  "config_handler e c = (r, c') \<Longrightarrow> c' = c"
  by (auto simp: config_handler_def split: if_splits)

lemma get_config_first_write:
  assumes "cached_config c = JNull" and "get_config R c = (r, c')"
    and "cached_config c' \<noteq> JNull"
  shows "r = Inr (cached_config c')"
proof -
  obtain r1 c1 where g: "get_gm_path R c = (r1, c1)" by (cases "get_gm_path R c")
  from get_gm_path_effect[OF g] assms(1) obtain gm where
    r1: "r1 = Inr gm" and c1: "cached_config c1 = JNull" by auto
  let ?q = "call_request gm ''GetGameConfigJSON''"
  have c2: "cached_config (sent ?q c1) = JNull" using c1 by (simp add: sent_def)
  from assms(2) have "get_config R c = (r, c')" .
  then show ?thesis
    using assms(3) c2
    unfolding get_config_unfold[OF assms(1) g[unfolded r1]] call_function_outcome
    by (auto simp: store_config_def split: sum.splits if_splits dest!: config_handler_cache)
qed

lemma get_config_success:
  assumes "cached_config c = JNull" and "get_gm_path R c = (Inr gm, c1)"
    and "respond R (requests c1) (call_request gm ''GetGameConfigJSON'') = HttpOk b"
    and "b \<noteq> []" and "loads R b = Some (JObj kvs)"
    and "map_of kvs ''ReturnValue'' = Some (JStr s)" and "s \<noteq> []" and "loads R s = Some config"
  shows "get_config R c
     = (Inr config, store_config config (sent (call_request gm ''GetGameConfigJSON'') c1))"
  using assms(3-8)
  by (simp add: get_config_unfold[OF assms(1,2)] call_function_outcome)

text \<open>
  Claim C6. The cache is written by a successful fetch: when the cache is empty and the
  server's answer carries a \<open>ReturnValue\<close> string that decodes to \<open>config\<close>,
  \<open>get_config\<close> returns \<open>config\<close> and stores it in the cache; a fetch that fails
  leaves the cache empty. Once the cache holds a configuration, \<open>get_config\<close> returns
  it and changes nothing (no request is issued, the cache keeps its value), also over any
  number of further calls and whatever the server would answer; the call that populates
  an empty cache returns the value it stored; and storing the same value again leaves the
  cache as it is.
\<close>

theorem get_config_write_once:
  "(cached_config c \<noteq> JNull \<longrightarrow> get_config R c = (Inr (cached_config c), c))
   \<and> (\<forall>gm c1 b kvs s config.
         cached_config c = JNull \<and> get_gm_path R c = (Inr gm, c1)
         \<and> respond R (requests c1) (call_request gm ''GetGameConfigJSON'') = HttpOk b
         \<and> b \<noteq> [] \<and> loads R b = Some (JObj kvs)
         \<and> map_of kvs ''ReturnValue'' = Some (JStr s) \<and> s \<noteq> [] \<and> loads R s = Some config
         \<longrightarrow> get_config R c
               = (Inr config, store_config config (sent (call_request gm ''GetGameConfigJSON'') c1))
             \<and> cached_config (snd (get_config R c)) = config)
   \<and> (\<forall>gm c1.
         cached_config c = JNull \<and> get_gm_path R c = (Inr gm, c1)
         \<and> fetch_fails R (respond R (requests c1) (call_request gm ''GetGameConfigJSON''))
         \<longrightarrow> cached_config (snd (get_config R c)) = JNull)
   \<and> (cached_config c = JNull \<and> cached_config (snd (get_config R c)) \<noteq> JNull \<longrightarrow>
        fst (get_config R c) = Inr (cached_config (snd (get_config R c))))
   \<and> (cached_config (snd (get_config R c)) \<noteq> JNull \<longrightarrow>
        get_config_calls R' n (snd (get_config R c))
          = (replicate n (Inr (cached_config (snd (get_config R c)))), snd (get_config R c)))
   \<and> store_config v (store_config v c) = store_config v c"
proof (intro conjI impI allI)
  assume "cached_config c \<noteq> JNull"
  then show "get_config R c = (Inr (cached_config c), c)" by (rule get_config_cached)
next
  fix gm c1 b kvs s config
  assume a: "cached_config c = JNull \<and> get_gm_path R c = (Inr gm, c1)
         \<and> respond R (requests c1) (call_request gm ''GetGameConfigJSON'') = HttpOk b
         \<and> b \<noteq> [] \<and> loads R b = Some (JObj kvs)
         \<and> map_of kvs ''ReturnValue'' = Some (JStr s) \<and> s \<noteq> [] \<and> loads R s = Some config"
  then have g: "get_config R c
      = (Inr config, store_config config (sent (call_request gm ''GetGameConfigJSON'') c1))"
    using get_config_success[of c R gm c1 b kvs s config] by simp
  then show "get_config R c
      = (Inr config, store_config config (sent (call_request gm ''GetGameConfigJSON'') c1))" .
  from g show "cached_config (snd (get_config R c)) = config"
    by (simp add: store_config_def)
next
  fix gm c1
  assume a: "cached_config c = JNull \<and> get_gm_path R c = (Inr gm, c1)
         \<and> fetch_fails R (respond R (requests c1) (call_request gm ''GetGameConfigJSON''))"
  then have "get_config R c = (Inr (JObj []), sent (call_request gm ''GetGameConfigJSON'') c1)"
    using get_config_failure[of c R gm c1] by simp
  moreover from a get_gm_path_effect[of R c "Inr gm" c1] have "cached_config c1 = JNull" by auto
  ultimately show "cached_config (snd (get_config R c)) = JNull"
    by (simp add: sent_def)
next
  assume "cached_config c = JNull \<and> cached_config (snd (get_config R c)) \<noteq> JNull"
  then show "fst (get_config R c) = Inr (cached_config (snd (get_config R c)))"
    using get_config_first_write[of c R "fst (get_config R c)" "snd (get_config R c)"] by simp
next
  assume "cached_config (snd (get_config R c)) \<noteq> JNull"
  then show "get_config_calls R' n (snd (get_config R c))
          = (replicate n (Inr (cached_config (snd (get_config R c)))), snd (get_config R c))"
    by (rule get_config_calls_cached)
next
  show "store_config v (store_config v c) = store_config v c"
    by (simp add: store_config_def)
qed

theorem get_config_write_once_witness:
  "get_config config_remote known_client
     = (Inr sample_config,
        store_config sample_config (sent (call_request ''/Game/GM'' ''GetGameConfigJSON'') known_client))
   \<and> cached_config (snd (get_config config_remote known_client)) = sample_config
   \<and> get_config_calls unreachable_remote 3 (snd (get_config config_remote known_client))
      = ([Inr sample_config, Inr sample_config, Inr sample_config],
         snd (get_config config_remote known_client))
   \<and> cached_config (snd (get_config failing_remote known_client)) = JNull"
proof -
  have answered: "cached_config known_client = JNull
      \<and> get_gm_path config_remote known_client = (Inr ''/Game/GM'', known_client)
      \<and> respond config_remote (requests known_client)
          (call_request ''/Game/GM'' ''GetGameConfigJSON'') = HttpOk ''R''
      \<and> ''R'' \<noteq> [] \<and> loads config_remote ''R'' = Some (JObj [(''ReturnValue'', JStr ''C'')])
      \<and> map_of [(''ReturnValue'', JStr ''C'')] ''ReturnValue'' = Some (JStr ''C'')
      \<and> ''C'' \<noteq> [] \<and> loads config_remote ''C'' = Some sample_config"
    by (simp add: get_gm_path_def known_client_def config_remote_def)
  have refused: "cached_config known_client = JNull
      \<and> get_gm_path failing_remote known_client = (Inr ''/Game/GM'', known_client)
      \<and> fetch_fails failing_remote (respond failing_remote (requests known_client)
          (call_request ''/Game/GM'' ''GetGameConfigJSON''))"
    by (simp add: get_gm_path_def known_client_def fetch_fails_def failing_remote_def)
  note once = get_config_write_once[of known_client config_remote unreachable_remote 3]
  note fetched = once[THEN conjunct2, THEN conjunct1, rule_format, OF answered]
  from fetched[THEN conjunct2]
  have "cached_config (snd (get_config config_remote known_client)) \<noteq> JNull"
    by (simp only: sample_config_def) simp
  note later = once[THEN conjunct2, THEN conjunct2, THEN conjunct2, THEN conjunct2,
      THEN conjunct1, rule_format, OF this]
  note unwritten = get_config_write_once[of known_client failing_remote,
      THEN conjunct2, THEN conjunct2, THEN conjunct1, rule_format, OF refused]
  have thrice: "\<And>r :: error + json. replicate 3 r = [r, r, r]"
    by (simp add: numeral_3_eq_3)
  note later = later[unfolded fetched[THEN conjunct2] thrice]
  show ?thesis
    by (intro conjI fetched[THEN conjunct1] fetched[THEN conjunct2] later unwritten)
qed

subsection \<open>navigate\<close>

text \<open>
  Claim C10. When the import of \<open>path_planner\<close> fails (the module is not found, or the
  import raises another \<open>ImportError\<close>), \<open>navigate\<close> raises \<open>PlayUnrealError\<close>
  with a message that names the module; when the import succeeds, \<open>navigate\<close> returns
  what \<open>navigate_to_home_slot\<close> returns for the client and the two arguments as given
  (6 and 8 when they are omitted).
\<close>

theorem navigate_import:
  fixes navigate_to_home_slot :: "client \<Rightarrow> int \<Rightarrow> int \<Rightarrow> (error + 'r) \<times> client"
    and missing :: "(client \<Rightarrow> int \<Rightarrow> int \<Rightarrow> (error + 'r) \<times> client) import_result"
  shows "(missing = ModuleNotFoundError \<or> missing = ImportError \<longrightarrow>
            navigate missing target_col max_deaths c = (Inl (PlayUnrealError planner_missing), c))
   \<and> take 19 planner_missing = ''path_planner module''
   \<and> navigate (Imported navigate_to_home_slot) (Some t) (Some d) c = navigate_to_home_slot c t d
   \<and> navigate (Imported navigate_to_home_slot) None None c = navigate_to_home_slot c 6 8"
  by (auto simp: navigate_def planner_missing_def)

theorem navigate_import_witness:
  "navigate (ModuleNotFoundError :: (client \<Rightarrow> int \<Rightarrow> int \<Rightarrow> (error + int) \<times> client) import_result)
      None None known_client
     = (Inl (PlayUnrealError planner_missing), known_client)
   \<and> navigate (Imported (\<lambda>c t d. (Inr (t + d), c))) (Some 4) (Some 15) known_client
     = (Inr (19::int), known_client)"
  using navigate_import[where navigate_to_home_slot = "\<lambda>c t d. (Inr (t + d), c)"
      and missing = ModuleNotFoundError
      and t = 4 and d = 15 and c = known_client and target_col = None and max_deaths = None]
  by simp

subsection \<open>The search of the planner\<close>

lemma earliest_Some:
  "earliest ok max_wait = Some w \<Longrightarrow> ok w \<and> w \<le> max_wait \<and> (\<forall>t<w. \<not> ok t)"
proof -
  assume a: "earliest ok max_wait = Some w"
  then obtain i where i: "i < length [0..<Suc max_wait]" "ok ([0..<Suc max_wait] ! i)"
    "w = [0..<Suc max_wait] ! i" "\<forall>j<i. \<not> ok ([0..<Suc max_wait] ! j)"
    unfolding earliest_def find_Some_iff by blast
  from i(1) have lt: "i < Suc max_wait" by simp
  have nth: "\<And>k. k < Suc max_wait \<Longrightarrow> [0..<Suc max_wait] ! k = k"
    using nth_upt[of 0 _ "Suc max_wait"] by simp
  from i(3) nth[OF lt] have wi: "w = i" by simp
  have "\<forall>t<w. \<not> ok t"
  proof (intro allI impI)
    fix t assume "t < w"
    with wi lt have ti: "t < i" and tm: "t < Suc max_wait" by simp_all
    from i(4) ti have "\<not> ok ([0..<Suc max_wait] ! t)" by blast
    with nth[OF tm] show "\<not> ok t" by simp
  qed
  moreover from i(2) nth[OF lt] wi have "ok w" by simp
  moreover from lt wi have "w \<le> max_wait" by simp
  ultimately show ?thesis by blast
qed

lemma earliest_None:
  "earliest ok max_wait = None \<longleftrightarrow> (\<forall>t\<le>max_wait. \<not> ok t)"
  unfolding earliest_def find_None_iff set_upt atLeastLessThan_iff less_Suc_eq_le by blast

lemma select_best_source:
  "select_best wait_of cs best = Some (c, w) \<Longrightarrow>
     best = Some (c, w) \<or> (c \<in> set cs \<and> wait_of c = Some w)"
  by (induction cs arbitrary: best) (fastforce split: option.splits if_splits)+

lemma select_best_le_best:
  "select_best wait_of cs (Some (bc, bw)) = Some (c, w) \<Longrightarrow> w \<le> bw"
proof (induction cs arbitrary: bc bw)
  case Nil
  then show ?case by simp
next
  case (Cons a cs)
  then show ?case
    by (cases "wait_of a") (fastforce split: if_splits dest: Cons.IH)+
qed

lemma select_best_minimal:
  "select_best wait_of cs best = Some (c, w) \<Longrightarrow> c' \<in> set cs \<Longrightarrow> wait_of c' = Some w' \<Longrightarrow> w \<le> w'"
proof (induction cs arbitrary: best)
  case Nil
  then show ?case by simp
next
  case (Cons a cs)
  show ?case
  proof (cases "c' = a")
    case True
    with Cons.prems(3) have wa: "wait_of a = Some w'" by simp
    show ?thesis
    proof (cases best)
      case None
      with Cons.prems(1) wa have "select_best wait_of cs (Some (a, w')) = Some (c, w)" by simp
      then show ?thesis by (rule select_best_le_best)
    next
      case (Some b)
      obtain bc bw where b: "b = (bc, bw)" by (cases b)
      show ?thesis
      proof (cases "w' < bw")
        case True
        with Cons.prems(1) wa Some b have "select_best wait_of cs (Some (a, w')) = Some (c, w)" by simp
        then show ?thesis by (rule select_best_le_best)
      next
        case False
        with Cons.prems(1) wa Some b have "select_best wait_of cs (Some (bc, bw)) = Some (c, w)" by simp
        then have "w \<le> bw" by (rule select_best_le_best)
        with False show ?thesis by simp
      qed
    qed
  next
    case False
    with Cons.prems(2) have "c' \<in> set cs" by simp
    from Cons.IH[OF _ this Cons.prems(3)] Cons.prems(1) show ?thesis by simp
  qed
qed

lemma select_best_None:
  "select_best wait_of cs best = None \<longleftrightarrow> best = None \<and> (\<forall>c\<in>set cs. wait_of c = None)"
  by (induction cs arbitrary: best) (auto split: option.splits if_splits)

lemma set_road_candidates: "set (road_candidates cfg cur tgt) = {0..<gridCols cfg}"
  by (simp add: road_candidates_def)

lemma set_river_candidates: "set (river_candidates cfg cur) = {0..<gridCols cfg}"
  by (simp add: river_candidates_def)

lemma search_result_Some:
  "search_result mw best = (Some c, w) \<longleftrightarrow> best = Some (c, w)"
  by (auto simp: search_result_def split: option.splits)

lemma search_result_None:
  "fst (search_result mw best) = None \<longleftrightarrow> best = None"
  by (auto simp: search_result_def split: option.splits)

text \<open>
  Claim C1. Soundness of the safe-column search: whatever the hazards of the row, the
  current and target columns and the wait budget, a column returned by
  \<open>find_safe_column\<close> is safe at the returned wait time (and at the landing instant
  one hop duration later); the wait is within the budget and the column is on the grid.
\<close>

theorem find_safe_column_sound:
  assumes "find_safe_column cfg hazards current_col target_col max_wait = (Some column, wait_time)"
  shows "is_column_safe cfg hazards column wait_time
         \<and> is_column_safe cfg hazards column (wait_time + hopDuration cfg)
         \<and> wait_time \<le> max_wait \<and> column < gridCols cfg"
proof -
  let ?wait_of = "\<lambda>c. earliest (is_column_safe_for_hop cfg hazards c) max_wait"
  from assms have "select_best ?wait_of (road_candidates cfg current_col target_col) None
      = Some (column, wait_time)"
    by (simp add: find_safe_column_def search_result_Some)
  from select_best_source[OF this]
  have c: "column \<in> set (road_candidates cfg current_col target_col)"
    and w: "?wait_of column = Some wait_time" by simp_all
  from earliest_Some[OF w] have "is_column_safe_for_hop cfg hazards column wait_time"
    and "wait_time \<le> max_wait" by simp_all
  with c show ?thesis
    by (simp add: is_column_safe_for_hop_def set_road_candidates)
qed

theorem find_safe_column_sound_witness:
  "find_safe_column unit_grid [parked_car] 5 7 2 = (Some 7, 0)
   \<and> is_column_safe unit_grid [parked_car] 7 0
   \<and> is_column_safe unit_grid [parked_car] 7 (0 + hopDuration unit_grid)"
proof -
  have found: "find_safe_column unit_grid [parked_car] 5 7 2 = (Some 7, 0)"
    by code_simp
  from find_safe_column_sound[OF found] found show ?thesis by simp
qed

text \<open>
  Claim C2. Optimality and completeness of the safe-column search, a column counting as
  safe at a time when a hop begun then is safe (at its start and at its landing): the
  wait returned is minimal among the waits \<open>t \<le> max_wait\<close> at which any column of the
  grid is safe, and no column is returned exactly when no column of the grid is safe at
  any \<open>t \<le> max_wait\<close>.
\<close>

theorem find_safe_column_optimal:
  "(find_safe_column cfg hazards current_col target_col max_wait = (Some column, wait_time) \<longrightarrow>
      column < gridCols cfg \<and> wait_time \<le> max_wait
      \<and> is_column_safe_for_hop cfg hazards column wait_time
      \<and> (\<forall>c t. c < gridCols cfg \<and> t \<le> max_wait \<and> is_column_safe_for_hop cfg hazards c t
             \<longrightarrow> wait_time \<le> t))
   \<and> (fst (find_safe_column cfg hazards current_col target_col max_wait) = None \<longleftrightarrow>
        (\<forall>c t. c < gridCols cfg \<and> t \<le> max_wait \<longrightarrow> \<not> is_column_safe_for_hop cfg hazards c t))"
proof (intro conjI impI)
  let ?ok = "is_column_safe_for_hop cfg hazards"
  let ?wait_of = "\<lambda>c. earliest (?ok c) max_wait"
  let ?cands = "road_candidates cfg current_col target_col"
  {
    assume "find_safe_column cfg hazards current_col target_col max_wait = (Some column, wait_time)"
    then have sel: "select_best ?wait_of ?cands None = Some (column, wait_time)"
      by (simp add: find_safe_column_def search_result_Some)
    from select_best_source[OF sel]
    have c: "column \<in> set ?cands" and w: "?wait_of column = Some wait_time" by simp_all
    from c show "column < gridCols cfg" by (simp add: set_road_candidates)
    from earliest_Some[OF w] show "wait_time \<le> max_wait" and "?ok column wait_time" by simp_all
    show "\<forall>c t. c < gridCols cfg \<and> t \<le> max_wait \<and> ?ok c t \<longrightarrow> wait_time \<le> t"
    proof (intro allI impI)
      fix c t assume a: "c < gridCols cfg \<and> t \<le> max_wait \<and> ?ok c t"
      then have "?wait_of c \<noteq> None" by (auto simp: earliest_None)
      then obtain w' where w': "?wait_of c = Some w'" by blast
      from earliest_Some[OF w'] a have "w' \<le> t" by (meson not_le_imp_less)
      moreover from a have "c \<in> set ?cands" by (simp add: set_road_candidates)
      from select_best_minimal[OF sel this w'] have "wait_time \<le> w'" .
      ultimately show "wait_time \<le> t" by simp
    qed
  }
  show "fst (find_safe_column cfg hazards current_col target_col max_wait) = None \<longleftrightarrow>
        (\<forall>c t. c < gridCols cfg \<and> t \<le> max_wait \<longrightarrow> \<not> ?ok c t)"
    by (auto simp: find_safe_column_def search_result_None select_best_None
        set_road_candidates earliest_None)
qed

theorem find_safe_column_optimal_witness:
  "find_safe_column unit_grid [parked_car] 5 7 2 = (Some 7, 0)
   \<and> is_column_safe_for_hop unit_grid [parked_car] 7 0
   \<and> fst (find_safe_column unit_grid [road_block] 5 7 2) = None
   \<and> \<not> is_column_safe_for_hop unit_grid [road_block] 7 1"
proof -
  have found: "find_safe_column unit_grid [parked_car] 5 7 2 = (Some 7, 0)"
    by code_simp
  have blocked: "fst (find_safe_column unit_grid [road_block] 5 7 2) = None"
    by code_simp
  have on_grid: "7 < gridCols unit_grid \<and> (1::nat) \<le> 2"
    by (simp add: unit_grid_def)
  from find_safe_column_optimal[of unit_grid "[parked_car]" 5 7 2 7 0] found
  have "is_column_safe_for_hop unit_grid [parked_car] 7 0" by simp
  moreover
  from find_safe_column_optimal[of unit_grid "[road_block]" 5 7 2] blocked on_grid
  have "\<not> is_column_safe_for_hop unit_grid [road_block] 7 1" by blast
  ultimately show ?thesis using found blocked by simp
qed

text \<open>
  Claim C3. Soundness of the platform search with look-ahead: a column returned by
  \<open>find_platform_column\<close> is covered by the span of a rideable hazard at the returned
  wait time and is covered by the span of a rideable hazard one hop duration later; the
  wait is within the budget and the column is on the grid.
\<close>

theorem find_platform_column_sound:
  assumes "find_platform_column cfg hazards current_col max_wait = (Some column, wait_time)"
  shows "(\<exists>h \<in> set hazards. rideable h \<and> covers cfg h column wait_time)
         \<and> (\<exists>h \<in> set hazards. rideable h \<and> covers cfg h column (wait_time + hopDuration cfg))
         \<and> wait_time \<le> max_wait \<and> column < gridCols cfg"
proof -
  let ?wait_of = "\<lambda>c. earliest (platform_ready cfg hazards c) max_wait"
  from assms have "select_best ?wait_of (river_candidates cfg current_col) None
      = Some (column, wait_time)"
    by (simp add: find_platform_column_def search_result_Some)
  from select_best_source[OF this]
  have c: "column \<in> set (river_candidates cfg current_col)"
    and w: "?wait_of column = Some wait_time" by simp_all
  from earliest_Some[OF w] have ready: "platform_ready cfg hazards column wait_time"
    and budget: "wait_time \<le> max_wait" by simp_all
  have covered: "\<And>dt. column_covered cfg hazards column dt \<Longrightarrow>
      \<exists>h \<in> set hazards. rideable h \<and> covers cfg h column dt"
    by (auto simp: column_covered_def covers_def Let_def)
  from ready have "\<exists>h \<in> set hazards. rideable h \<and> covers cfg h column wait_time"
    and "\<exists>h \<in> set hazards. rideable h \<and> covers cfg h column (wait_time + hopDuration cfg)"
    by (simp_all add: platform_ready_def covered)
  with budget c show ?thesis
    by (simp add: set_river_candidates)
qed

theorem find_platform_column_sound_witness:
  "find_platform_column unit_grid [drifting_log] 6 3 = (Some 2, 0)
   \<and> covers unit_grid drifting_log 2 0
   \<and> covers unit_grid drifting_log 2 (0 + hopDuration unit_grid)"
proof -
  have found: "find_platform_column unit_grid [drifting_log] 6 3 = (Some 2, 0)"
    by code_simp
  from find_platform_column_sound[OF found] found show ?thesis by simp
qed

end
